theory Spec2Isabelle
  imports Complex_Main "HOL-Library.Multiset"
begin

section \<open>Values, exceptions and the built-ins the pipeline calls\<close>

text \<open>
  The survey pipeline of \<^verbatim>\<open>emotional_climate.py\<close>. A Python \<^verbatim>\<open>str\<close> is a
  \<^typ>\<open>string\<close> whose characters are read as the code points 0..255. Python numbers
  (the ints 0 and 1, the floats 1/3 and 2/3, the means numpy computes) are modelled by
  the rationals they stand for, so rounding of binary floating point is not part of the
  model. Every function that starts with an \<^verbatim>\<open>isinstance\<close> check takes a
  dynamically typed value.
\<close>

datatype pyval =
    PyNone
  | PyInt int
  | PyFloat rat
  | is_str: PyStr string
  | is_list: PyList "pyval list"

text \<open>
  The two messages \<^verbatim>\<open>extract_feeling\<close> gives to \<^verbatim>\<open>IndexError\<close> carry the numbers
  they format; the other messages are left out.
\<close>

datatype index_reason = Subgroup_negative int | Subgroup_too_large nat int

datatype error =
    is_TypeError: TypeError
  | is_IndexError: IndexError index_reason
  | ValueError
  | FileNotFoundError string

text \<open>\<^verbatim>\<open>\w\<close> of \<^verbatim>\<open>re\<close> on a \<^verbatim>\<open>str\<close> pattern: alphanumeric code points and the underscore.\<close>

definition word_char :: "char \<Rightarrow> bool" where
  "word_char c =
     (let n = (of_char c :: nat) in
        (48 \<le> n \<and> n \<le> 57) \<or> (65 \<le> n \<and> n \<le> 90) \<or> n = 95 \<or> (97 \<le> n \<and> n \<le> 122)
        \<or> n \<in> set [170, 178, 179, 181, 185, 186, 188, 189, 190]
        \<or> (192 \<le> n \<and> n \<le> 214) \<or> (216 \<le> n \<and> n \<le> 246) \<or> (248 \<le> n \<and> n \<le> 255))"

text \<open>\<^verbatim>\<open>str.isspace\<close> on one character, which is what \<^verbatim>\<open>str.strip()\<close> removes.\<close>

definition space_char :: "char \<Rightarrow> bool" where
  "space_char c =
     (let n = (of_char c :: nat) in
        (9 \<le> n \<and> n \<le> 13) \<or> (28 \<le> n \<and> n \<le> 32) \<or> n = 133 \<or> n = 160)"

definition py_strip :: "string \<Rightarrow> string" where
  "py_strip s = rev (dropWhile space_char (rev (dropWhile space_char s)))"

text \<open>\<^verbatim>\<open>s.replace(a, b)\<close> for one-character \<^verbatim>\<open>a\<close> and \<^verbatim>\<open>b\<close>.\<close>

definition py_replace_char :: "string \<Rightarrow> char \<Rightarrow> char \<Rightarrow> string" where
  "py_replace_char s a b = map (\<lambda>c. if c = a then b else c) s"

text \<open>\<^verbatim>\<open>s.find(c)\<close>: the index of the first occurrence, or -1.\<close>

definition py_find :: "string \<Rightarrow> char \<Rightarrow> int" where
  "py_find s c = (if c \<in> set s then int (length (takeWhile (\<lambda>x. x \<noteq> c) s)) else - 1)"

text \<open>
  Slicing \<^verbatim>\<open>xs[lo:hi]\<close>: a negative index counts from the end, and both indices are
  then clamped to the range from 0 to the length.
\<close>

definition adjust_index :: "nat \<Rightarrow> int \<Rightarrow> nat" where
  "adjust_index n i =
     (if i < 0 then (if i + int n < 0 then 0 else nat (i + int n))
      else if int n \<le> i then n else nat i)"

definition py_slice :: "'a list \<Rightarrow> int \<Rightarrow> int \<Rightarrow> 'a list" where
  "py_slice xs lo hi =
     (let start = adjust_index (length xs) lo; stop = adjust_index (length xs) hi
      in if start < stop then take (stop - start) (drop start xs) else [])"

text \<open>
  \<^verbatim>\<open>s.split(sep)\<close>: the pieces between the occurrences of \<^verbatim>\<open>sep\<close>, found from the
  left and not overlapping; an empty separator raises \<^verbatim>\<open>ValueError\<close>.
\<close>

function split_on :: "string \<Rightarrow> string \<Rightarrow> string \<Rightarrow> string list" where
  "split_on sep cur s =
     (if s = [] then [cur]
      else if sep \<noteq> [] \<and> take (length sep) s = sep
        then cur # split_on sep [] (drop (length sep) s)
      else split_on sep (cur @ [hd s]) (tl s))"
  by pat_completeness auto
termination
  by (relation "measure (\<lambda>(sep, cur, s). length s)") auto

declare split_on.simps [simp del]

definition py_split :: "string \<Rightarrow> string \<Rightarrow> error + string list" where
  "py_split s sep = (if sep = [] then Inl ValueError else Inr (split_on sep [] s))"

text \<open>
  \<^verbatim>\<open>re.findall(r"\[(\w+)\]", s)\<close>. A match starts at an opening bracket, takes the
  longest run of word characters, which must not be empty, and needs the closing bracket
  right after it; giving back part of the run cannot help, because the character after a
  shorter run is a word character. The search goes on after the closing bracket of a
  match, and one character further where nothing matched.
\<close>

definition match_at :: "string \<Rightarrow> (string \<times> string) option" where
  "match_at s =
     (case s of
        [] \<Rightarrow> None
      | c # r \<Rightarrow>
          if c = CHR ''[''
          then (case dropWhile word_char r of
                  [] \<Rightarrow> None
                | t # rest \<Rightarrow>
                    if takeWhile word_char r \<noteq> [] \<and> t = CHR '']''
                    then Some (takeWhile word_char r, rest) else None)
          else None)"

lemma match_at_shorter: "match_at s = Some (w, rest) \<Longrightarrow> length rest < length s"
proof -
  assume m: "match_at s = Some (w, rest)"
  then obtain c r where s: "s = c # r"
    by (cases s) (auto simp: match_at_def)
  from m s obtain t where d: "dropWhile word_char r = t # rest"
    by (auto simp: match_at_def split: if_splits list.splits)
  have "length (dropWhile word_char r) \<le> length r"
    by (rule length_dropWhile_le)
  with d s show ?thesis by simp
qed

function findall_bracketed :: "string \<Rightarrow> string list" where
  "findall_bracketed s =
     (if s = [] then []
      else (case match_at s of
              Some (w, rest) \<Rightarrow> w # findall_bracketed rest
            | None \<Rightarrow> findall_bracketed (tl s)))"
  by pat_completeness auto
termination
  by (relation "measure length") (auto dest: match_at_shorter)

declare findall_bracketed.simps [simp del]

section \<open>The functions of the pipeline\<close>

text \<open>
  \<^verbatim>\<open>extract_feeling(data, subgroup=0)\<close>. The last test of the source,
  \<^verbatim>\<open>match is not None\<close>, is always true of the list that \<^verbatim>\<open>re.findall\<close> returns, so
  the branch returning the empty string is never taken.
\<close>

definition extract_feeling :: "pyval \<Rightarrow> int \<Rightarrow> error + string" where
  "extract_feeling data subgroup =
     (case data of
        PyStr s \<Rightarrow>
          if subgroup < 0 then Inl (IndexError (Subgroup_negative subgroup))
          else
            (let match = findall_bracketed s; number_of_matches = length match
             in if int number_of_matches \<le> subgroup
                then Inl (IndexError (Subgroup_too_large number_of_matches subgroup))
                else Inr (match ! nat subgroup))
      | _ \<Rightarrow> Inl TypeError)"

text \<open>
  \<^verbatim>\<open>strip_data(raw_data)\<close>: \<^verbatim>\<open>cleaned[cleaned.find(']') + 1:]\<close> is the slice from
  that index to the end of \<^verbatim>\<open>cleaned\<close>.
\<close>

definition strip_data :: "pyval \<Rightarrow> error + string" where
  "strip_data raw_data =
     (case raw_data of
        PyStr s \<Rightarrow>
          (let cleaned = py_replace_char s (CHR 0x0A) (CHR '' '')
           in Inr (py_strip (py_slice cleaned (py_find cleaned (CHR '']'') + 1)
                                      (int (length cleaned)))))
      | _ \<Rightarrow> Inl TypeError)"

text \<open>
  \<^verbatim>\<open>clean_data(raw_data)\<close>. Beside its result the model gives the trace of the loop:
  each call it makes to the two helpers and each line it prints. The \<^verbatim>\<open>except\<close>
  clauses catch by class, and any other exception leaves the loop. The function ends
  without a \<^verbatim>\<open>return\<close> when the list of pairs is empty, which is Python's
  \<^verbatim>\<open>None\<close>.
\<close>

datatype event =
    Call_extract_feeling pyval
  | Call_strip_data pyval
  | Print_extract_failed error
  | Print_strip_failed error

definition emit :: "event list \<Rightarrow> event list \<times> 'a \<Rightarrow> event list \<times> 'a" where
  "emit evs p = (evs @ fst p, snd p)"

fun clean_loop ::
  "pyval list \<Rightarrow> (string \<times> string) list \<Rightarrow> event list \<times> (error + (string \<times> string) list)"
where
  "clean_loop [] cleaned_data_tuple = ([], Inr cleaned_data_tuple)"
| "clean_loop (data # rest) cleaned_data_tuple =
     (case extract_feeling data 0 of
        Inl error \<Rightarrow>
          if is_TypeError error \<or> is_IndexError error
          then emit [Call_extract_feeling data, Print_extract_failed error]
                 (clean_loop rest cleaned_data_tuple)
          else ([Call_extract_feeling data], Inl error)
      | Inr clean_feeling \<Rightarrow>
          (case strip_data data of
             Inl error \<Rightarrow>
               if is_TypeError error
               then emit [Call_extract_feeling data, Call_strip_data data,
                          Print_strip_failed error]
                      (clean_loop rest cleaned_data_tuple)
               else ([Call_extract_feeling data, Call_strip_data data], Inl error)
           | Inr cleaned_data \<Rightarrow>
               emit [Call_extract_feeling data, Call_strip_data data]
                 (clean_loop rest (cleaned_data_tuple @ [(clean_feeling, cleaned_data)]))))"

definition clean_data ::
  "pyval \<Rightarrow> event list \<times> (error + (string \<times> string) list option)"
where
  "clean_data raw_data =
     (case raw_data of
        PyList xs \<Rightarrow>
          if \<not> list_all is_str xs then ([], Inl TypeError)
          else
            (case clean_loop xs [] of
               (evs, Inl error) \<Rightarrow> (evs, Inl error)
             | (evs, Inr cleaned_data_tuple) \<Rightarrow>
                 (evs, Inr (if cleaned_data_tuple \<noteq> [] then Some cleaned_data_tuple
                            else None)))
      | _ \<Rightarrow> ([], Inl TypeError))"

text \<open>
  \<^verbatim>\<open>find_weights(data)\<close>. The dictionary is a finite map; a token that is a key gets
  its value and any other token gets \<^verbatim>\<open>None\<close>.
\<close>

definition weight_for_time_interval :: "string \<rightharpoonup> rat" where
  "weight_for_time_interval =
     [''Never'' \<mapsto> 0, ''Sometimes'' \<mapsto> 1 / 3, ''Often'' \<mapsto> 2 / 3, ''Always'' \<mapsto> 1]"

fun weights_loop :: "string list \<Rightarrow> rat option list \<Rightarrow> rat option list" where
  "weights_loop [] weights = weights"
| "weights_loop (time_interval # rest) weights =
     (case weight_for_time_interval time_interval of
        Some w \<Rightarrow> weights_loop rest (weights @ [Some w])
      | None \<Rightarrow> weights_loop rest (weights @ [None]))"

definition find_weights :: "pyval \<Rightarrow> error + rat option list" where
  "find_weights data =
     (case data of
        PyStr s \<Rightarrow>
          (case py_split s '' '' of
             Inl error \<Rightarrow> Inl error
           | Inr tokens \<Rightarrow> Inr (weights_loop tokens []))
      | _ \<Rightarrow> Inl TypeError)"

text \<open>
  \<^verbatim>\<open>get_data_from_file\<close>, over a file system that maps the names of the regular
  files to their text. The default arguments are \<^verbatim>\<open>lower_index = 0\<close> and
  \<^verbatim>\<open>upper_index = None\<close>.
\<close>

definition get_data_from_file ::
  "(string \<rightharpoonup> string) \<Rightarrow> string \<Rightarrow> string \<Rightarrow> int \<Rightarrow> int option \<Rightarrow> error + string list"
where
  "get_data_from_file fs file_to_read_from delimiter lower_index upper_index =
     (case fs file_to_read_from of
        None \<Rightarrow> Inl (FileNotFoundError file_to_read_from)
      | Some text \<Rightarrow>
          (case py_split text delimiter of
             Inl error \<Rightarrow> Inl error
           | Inr blocks \<Rightarrow>
               (case upper_index of
                  Some u \<Rightarrow> Inr (py_slice blocks lower_index u)
                | None \<Rightarrow> Inr (py_slice blocks lower_index (int (length blocks))))))"

text \<open>
  The class \<^verbatim>\<open>Data\<close>. \<^verbatim>\<open>np.mean\<close> of a list of numbers is their mean as a float,
  for which the model has the exact mean of the rationals, without the rounding of the
  sum and of the quotient; of the empty list it is NaN (with a warning); a list that holds
  \<^verbatim>\<open>None\<close> becomes an array of objects, and adding or dividing \<^verbatim>\<open>None\<close> raises
  \<^verbatim>\<open>TypeError\<close>.
\<close>

datatype number = Num rat | NaN

definition np_mean :: "rat option list \<Rightarrow> error + number" where
  "np_mean xs =
     (if None \<in> set xs then Inl TypeError
      else if xs = [] then Inr NaN
      else Inr (Num (sum_list (map the xs) / of_nat (length xs))))"

record Data =
  feeling :: string
  data :: string
  weights :: "rat option list"
  average_weight :: number

definition Data_init :: "string \<Rightarrow> string \<Rightarrow> Data" where
  "Data_init f d = \<lparr>feeling = f, data = d, weights = [], average_weight = Num 0\<rparr>"

text \<open>
  A method returns the object as it has left it, and the exception if it raised one:
  \<^verbatim>\<open>update_weights\<close> has already stored the new list when the mean is computed.
\<close>

definition update_average_weight :: "Data \<Rightarrow> Data \<times> error option" where
  "update_average_weight self =
     (case np_mean (weights self) of
        Inl error \<Rightarrow> (self, Some error)
      | Inr m \<Rightarrow> (self\<lparr>average_weight := m\<rparr>, None))"

definition update_weights :: "Data \<Rightarrow> rat option list \<Rightarrow> Data \<times> error option" where
  "update_weights self new_weights = update_average_weight (self\<lparr>weights := new_weights\<rparr>)"

text \<open>
  \<^verbatim>\<open>populate_dataset\<close> appends to the global list \<^verbatim>\<open>clean_data_objects\<close>, which
  the model takes and returns; the list is untouched when the function raises.
\<close>

definition populate_dataset :: "Data list \<Rightarrow> pyval \<Rightarrow> pyval \<Rightarrow> error + Data list" where
  "populate_dataset clean_data_objects f fd =
     (case f of
        PyStr a \<Rightarrow>
          (case fd of
             PyStr b \<Rightarrow> Inr (clean_data_objects @ [Data_init a b])
           | _ \<Rightarrow> Inl TypeError)
      | _ \<Rightarrow> Inl TypeError)"

text \<open>
  \<^verbatim>\<open>order_weights\<close>. \<^verbatim>\<open>list.sort\<close> is stable and compares keys with \<^verbatim>\<open><\<close>
  only; with \<^verbatim>\<open>reverse=True\<close> it reverses the list, sorts it in ascending order and
  reverses it again. On keys that are all numbers every stable sort gives the same list,
  which is the one of this insertion sort. A comparison with NaN is false, and the order
  Python then produces depends on the comparisons its own algorithm makes, which this
  model does not follow. The result is the sequence of pairs printed.
\<close>

definition num_lt :: "number \<Rightarrow> number \<Rightarrow> bool" where
  "num_lt a b = (case a of Num x \<Rightarrow> (case b of Num y \<Rightarrow> x < y | NaN \<Rightarrow> False) | NaN \<Rightarrow> False)"

fun insort_lt :: "('a \<Rightarrow> number) \<Rightarrow> 'a \<Rightarrow> 'a list \<Rightarrow> 'a list" where
  "insort_lt key x [] = [x]"
| "insort_lt key x (y # ys) =
     (if num_lt (key y) (key x) then y # insort_lt key x ys else x # y # ys)"

definition py_sort :: "('a \<Rightarrow> number) \<Rightarrow> bool \<Rightarrow> 'a list \<Rightarrow> 'a list" where
  "py_sort key reverse xs =
     (if reverse then rev (foldr (insort_lt key) (rev xs) [])
      else foldr (insort_lt key) xs [])"

definition order_weights :: "Data list \<Rightarrow> (string \<times> number) list" where
  "order_weights data_objects =
     py_sort snd True (map (\<lambda>data_object. (feeling data_object, average_weight data_object))
                           data_objects)"


text \<open>
  The policy of the block cleaner in the words of the specification: what one block
  contributes to the pairs, and what it contributes to the trace. A block whose label
  cannot be extracted gives no pair, one printed line and no call of \<^verbatim>\<open>strip_data\<close>.
\<close>

definition surviving_pair :: "string \<Rightarrow> (string \<times> string) option" where
  "surviving_pair block =
     (case extract_feeling (PyStr block) 0 of
        Inl e \<Rightarrow> None
      | Inr label \<Rightarrow>
          (case strip_data (PyStr block) of
             Inl e \<Rightarrow> None
           | Inr body \<Rightarrow> Some (label, body)))"

definition block_trace :: "string \<Rightarrow> event list" where
  "block_trace block =
     (case extract_feeling (PyStr block) 0 of
        Inl e \<Rightarrow> [Call_extract_feeling (PyStr block), Print_extract_failed e]
      | Inr label \<Rightarrow> [Call_extract_feeling (PyStr block), Call_strip_data (PyStr block)])"

section \<open>The label extractor\<close>

lemma findall_Nil: "findall_bracketed [] = []"
  by (simp add: findall_bracketed.simps)

lemma match_at_word: "match_at s = Some (w, rest) \<Longrightarrow> w \<noteq> []"
  by (auto simp: match_at_def split: list.splits if_splits)

lemma match_at_open: "match_at s = Some (w, rest) \<Longrightarrow> CHR ''['' \<in> set s"
  by (auto simp: match_at_def split: list.splits if_splits)

lemma match_at_close: "match_at s = Some (w, rest) \<Longrightarrow> CHR '']'' \<in> set s"
proof -
  assume m: "match_at s = Some (w, rest)"
  then obtain c r where s: "s = c # r"
    by (cases s) (auto simp: match_at_def)
  from m s have d: "dropWhile word_char r = CHR '']'' # rest"
    by (auto simp: match_at_def split: if_splits list.splits)
  have "set (dropWhile word_char r) \<subseteq> set r"
    by (rule set_dropWhileD[THEN subsetI]) 
  with d s show ?thesis by auto
qed

lemma findall_words_nonempty: "w \<in> set (findall_bracketed s) \<Longrightarrow> w \<noteq> []"
proof (induction s rule: findall_bracketed.induct)
  case (1 s)
  show ?case
  proof (cases "s = []")
    case True
    with "1.prems" show ?thesis by (simp add: findall_Nil)
  next
    case False
    show ?thesis
    proof (cases "match_at s")
      case None
      with False "1.prems" have "w \<in> set (findall_bracketed (tl s))"
        by (subst (asm) findall_bracketed.simps) simp
      with "1.IH"(1)[OF False None] show ?thesis by simp
    next
      case (Some p)
      obtain v rest where p: "p = (v, rest)" by (cases p)
      with False Some "1.prems" have "w = v \<or> w \<in> set (findall_bracketed rest)"
        by (subst (asm) findall_bracketed.simps) auto
      then show ?thesis
      proof
        assume "w = v"
        with Some p show ?thesis by (auto dest: match_at_word)
      next
        assume "w \<in> set (findall_bracketed rest)"
        with "1.IH"(2)[OF False Some p[symmetric]] show ?thesis by simp
      qed
    qed
  qed
qed

lemma findall_none_unmatched: "\<forall>t. match_at (drop t s) = None \<Longrightarrow> findall_bracketed s = []"
proof (induction s)
  case Nil
  show ?case by (rule findall_Nil)
next
  case (Cons c s)
  from Cons.prems have "match_at (c # s) = None" by (metis drop0)
  moreover have "\<forall>t. match_at (drop t s) = None"
  proof
    fix t from Cons.prems have "match_at (drop (Suc t) (c # s)) = None" by blast
    then show "match_at (drop t s) = None" by simp
  qed
  ultimately show ?case using Cons.IH by (subst findall_bracketed.simps) simp
qed

lemma findall_no_open: "CHR ''['' \<notin> set s \<Longrightarrow> findall_bracketed s = []"
proof (rule findall_none_unmatched, rule allI)
  fix t assume a: "CHR ''['' \<notin> set s"
  show "match_at (drop t s) = None"
  proof (cases "match_at (drop t s)")
    case (Some p)
    then have "CHR ''['' \<in> set (drop t s)" by (cases p) (auto dest: match_at_open)
    with a show ?thesis by (auto dest: in_set_dropD)
  qed simp
qed

lemma findall_no_close: "CHR '']'' \<notin> set s \<Longrightarrow> findall_bracketed s = []"
proof (rule findall_none_unmatched, rule allI)
  fix t assume a: "CHR '']'' \<notin> set s"
  show "match_at (drop t s) = None"
  proof (cases "match_at (drop t s)")
    case (Some p)
    then have "CHR '']'' \<in> set (drop t s)" by (cases p) (auto dest: match_at_close)
    with a show ?thesis by (auto dest: in_set_dropD)
  qed simp
qed

text \<open>
  C5. For a string block and a subgroup that is not negative, \<^verbatim>\<open>extract_feeling\<close>
  raises \<^verbatim>\<open>IndexError\<close> exactly when the subgroup is at least the number of
  bracketed words found, and returns the word of that index otherwise. A block without an
  opening or without a closing bracket fails under the default subgroup 0, and no call
  returns the empty string.
\<close>

theorem extract_feeling_out_of_range:
  "0 \<le> subgroup \<Longrightarrow>
     ((\<exists>r. extract_feeling (PyStr block) subgroup = Inl (IndexError r))
        \<longleftrightarrow> int (length (findall_bracketed block)) \<le> subgroup)
   \<and> (subgroup < int (length (findall_bracketed block)) \<longrightarrow>
        extract_feeling (PyStr block) subgroup = Inr (findall_bracketed block ! nat subgroup))
   \<and> (CHR ''['' \<notin> set block \<or> CHR '']'' \<notin> set block \<longrightarrow>
        extract_feeling (PyStr block) 0 = Inl (IndexError (Subgroup_too_large 0 0)))
   \<and> extract_feeling (PyStr block) subgroup \<noteq> Inr []"
proof (intro conjI impI)
  assume s: "0 \<le> subgroup"
  show "(\<exists>r. extract_feeling (PyStr block) subgroup = Inl (IndexError r))
        \<longleftrightarrow> int (length (findall_bracketed block)) \<le> subgroup"
    using s by (simp add: extract_feeling_def Let_def)
  show "extract_feeling (PyStr block) subgroup = Inr (findall_bracketed block ! nat subgroup)"
    if "subgroup < int (length (findall_bracketed block))"
    using s that by (simp add: extract_feeling_def Let_def)
  show "extract_feeling (PyStr block) 0 = Inl (IndexError (Subgroup_too_large 0 0))"
    if "CHR ''['' \<notin> set block \<or> CHR '']'' \<notin> set block"
  proof -
    from that have "findall_bracketed block = []"
      by (auto intro: findall_no_open findall_no_close)
    then show ?thesis by (simp add: extract_feeling_def)
  qed
  show "extract_feeling (PyStr block) subgroup \<noteq> Inr []"
  proof
    assume e: "extract_feeling (PyStr block) subgroup = Inr []"
    then have lt: "nat subgroup < length (findall_bracketed block)"
      and nth: "findall_bracketed block ! nat subgroup = []"
      using s by (auto simp: extract_feeling_def Let_def split: if_splits)
    from lt have "findall_bracketed block ! nat subgroup \<in> set (findall_bracketed block)"
      by (rule nth_mem)
    with nth findall_words_nonempty show False by fastforce
  qed
qed

theorem extract_feeling_out_of_range_witness:
  "(0::int) \<le> 1
   \<and> extract_feeling (PyStr ''[6] [90]'') 1 = Inr ''90''
   \<and> (\<exists>r. extract_feeling (PyStr ''[6] [90]'') 2 = Inl (IndexError r))
   \<and> extract_feeling (PyStr ''no brackets here'') 0 = Inl (IndexError (Subgroup_too_large 0 0))"
proof -
  have m: "findall_bracketed ''[6] [90]'' = [''6'', ''90'']" by code_simp
  have h1: "(0::int) \<le> 1" and h2: "(0::int) \<le> 2" and h0: "(0::int) \<le> 0" by simp_all
  show ?thesis
    using extract_feeling_out_of_range [OF h1, of "''[6] [90]''"]
      extract_feeling_out_of_range [OF h2, of "''[6] [90]''"]
      extract_feeling_out_of_range [OF h0, of "''no brackets here''"]
    by (simp add: m)
qed


section \<open>The body normalizer\<close>

lemma py_find_absent: "c \<notin> set s \<Longrightarrow> py_find s c = - 1"
  by (simp add: py_find_def)

lemma py_slice_whole: "py_slice xs 0 (int (length xs)) = xs"
  by (cases xs) (simp_all add: py_slice_def adjust_index_def Let_def)

lemma py_replace_char_set:
  "c \<noteq> b \<Longrightarrow> c \<notin> set s \<Longrightarrow> c \<notin> set (py_replace_char s a b)"
  by (auto simp: py_replace_char_def)

lemma dropWhile_rev_dropWhile_Nil:
  "dropWhile P (rev (dropWhile P s)) = [] \<longleftrightarrow> dropWhile P s = []"
proof
  assume a: "dropWhile P (rev (dropWhile P s)) = []"
  show "dropWhile P s = []"
  proof (rule ccontr)
    assume n: "dropWhile P s \<noteq> []"
    then have "\<not> P (hd (dropWhile P s))" by (rule hd_dropWhile)
    moreover from n have "hd (dropWhile P s) \<in> set (rev (dropWhile P s))" by simp
    moreover from a have "\<forall>x \<in> set (rev (dropWhile P s)). P x"
      by (simp only: dropWhile_eq_Nil_conv)
    ultimately show False by blast
  qed
next
  assume "dropWhile P s = []"
  then show "dropWhile P (rev (dropWhile P s)) = []" by (simp only: rev.simps dropWhile.simps)
qed

lemma py_strip_Nil: "py_strip s = [] \<longleftrightarrow> list_all space_char s"
proof -
  have "py_strip s = [] \<longleftrightarrow> dropWhile space_char s = []"
    unfolding py_strip_def rev_is_Nil_conv by (rule dropWhile_rev_dropWhile_Nil)
  then show ?thesis by (simp add: dropWhile_eq_Nil_conv list_all_iff)
qed

lemma space_char_newline: "space_char (CHR 0x0A)" and space_char_space: "space_char (CHR '' '')"
  by (simp_all add: space_char_def)

lemma list_all_space_replace:
  "list_all space_char (py_replace_char s (CHR 0x0A) (CHR '' '')) \<longleftrightarrow> list_all space_char s"
  by (induction s) (auto simp: py_replace_char_def space_char_newline space_char_space)

lemma py_strip_decompose:
  "\<exists>pre post. s = pre @ py_strip s @ post \<and> list_all space_char pre \<and> list_all space_char post"
proof -
  let ?t = "dropWhile space_char s"
  have 1: "s = takeWhile space_char s @ ?t" by simp
  have "rev ?t = takeWhile space_char (rev ?t) @ dropWhile space_char (rev ?t)" by simp
  then have "rev (rev ?t) = rev (takeWhile space_char (rev ?t) @ dropWhile space_char (rev ?t))"
    by (rule arg_cong)
  then have 2: "?t = py_strip s @ rev (takeWhile space_char (rev ?t))"
    by (simp only: py_strip_def rev_append rev_rev_ident)
  have 3: "list_all space_char (takeWhile space_char s)"
    by (auto simp: list_all_iff dest: set_takeWhileD)
  have 4: "list_all space_char (rev (takeWhile space_char (rev ?t)))"
    by (auto simp: list_all_iff dest: set_takeWhileD)
  from 1 2 have "s = takeWhile space_char s @ py_strip s @ rev (takeWhile space_char (rev ?t))"
    by simp
  with 3 4 show ?thesis by blast
qed

lemma py_strip_ends:
  "py_strip s \<noteq> [] \<Longrightarrow> \<not> space_char (hd (py_strip s)) \<and> \<not> space_char (last (py_strip s))"
proof -
  let ?t = "dropWhile space_char s"
  let ?u = "dropWhile space_char (rev ?t)"
  assume n: "py_strip s \<noteq> []"
  then have u: "?u \<noteq> []" by (simp add: py_strip_def)
  then have t: "?t \<noteq> []"
    using dropWhile_rev_dropWhile_Nil [of space_char s] by blast
  from u have l: "\<not> space_char (hd ?u)" by (rule hd_dropWhile)
  from t have h: "\<not> space_char (hd ?t)" by (rule hd_dropWhile)
  have "last (py_strip s) = hd ?u" using u by (simp add: py_strip_def last_rev)
  moreover have "hd (py_strip s) = hd ?t"
  proof -
    have "rev ?t = takeWhile space_char (rev ?t) @ ?u" by simp
    then have "rev (rev ?t) = rev (takeWhile space_char (rev ?t) @ ?u)" by (rule arg_cong)
    then have "?t = py_strip s @ rev (takeWhile space_char (rev ?t))"
      by (simp only: py_strip_def rev_append rev_rev_ident)
    then have "hd ?t = hd (py_strip s @ rev (takeWhile space_char (rev ?t)))" by (rule arg_cong)
    with n show ?thesis by simp
  qed
  ultimately show ?thesis using l h by simp
qed

text \<open>
  C10. For a string block without a closing bracket, \<^verbatim>\<open>strip_data\<close> raises nothing and
  returns the whole block, its newlines replaced by spaces, without the whitespace at
  its two ends: only whitespace before and after the result is dropped, the result does
  not begin or end with whitespace, and it is empty exactly when every character of the
  block is whitespace.
\<close>

theorem strip_data_without_closing_bracket:
  "CHR '']'' \<notin> set block \<Longrightarrow>
     strip_data (PyStr block) = Inr (py_strip (py_replace_char block (CHR 0x0A) (CHR '' '')))
   \<and> (\<exists>body pre post.
         strip_data (PyStr block) = Inr body
       \<and> py_replace_char block (CHR 0x0A) (CHR '' '') = pre @ body @ post
       \<and> list_all space_char pre \<and> list_all space_char post
       \<and> (if body = [] then list_all space_char block
           else \<not> space_char (hd body) \<and> \<not> space_char (last body)))"
proof -
  let ?cleaned = "py_replace_char block (CHR 0x0A) (CHR '' '')"
  assume a: "CHR '']'' \<notin> set block"
  then have "CHR '']'' \<notin> set ?cleaned" by (intro py_replace_char_set) simp_all
  then have f: "py_find ?cleaned (CHR '']'') = - 1" by (rule py_find_absent)
  have r: "strip_data (PyStr block) = Inr (py_strip ?cleaned)"
    by (simp add: strip_data_def Let_def f py_slice_whole)
  obtain pre post where d: "?cleaned = pre @ py_strip ?cleaned @ post"
    "list_all space_char pre" "list_all space_char post"
    using py_strip_decompose [of ?cleaned] by blast
  have e: "if py_strip ?cleaned = [] then list_all space_char block
           else \<not> space_char (hd (py_strip ?cleaned)) \<and> \<not> space_char (last (py_strip ?cleaned))"
    using py_strip_Nil [of ?cleaned] py_strip_ends [of ?cleaned]
    by (simp add: list_all_space_replace)
  from r d e show ?thesis by blast
qed

theorem strip_data_without_closing_bracket_witness:
  "CHR '']'' \<notin> set ''\<newline> Often\<newline>[Never \<newline>''
   \<and> strip_data (PyStr ''\<newline> Often\<newline>[Never \<newline>'') = Inr ''Often [Never''
   \<and> strip_data (PyStr '' \<newline> '') = Inr []"
proof -
  have h1: "CHR '']'' \<notin> set ''\<newline> Often\<newline>[Never \<newline>''" by simp
  have h2: "CHR '']'' \<notin> set '' \<newline> ''" by simp
  have s1: "py_strip (py_replace_char ''\<newline> Often\<newline>[Never \<newline>'' (CHR 0x0A) (CHR '' '')) = ''Often [Never''"
    by code_simp
  have s2: "py_strip (py_replace_char '' \<newline> '' (CHR 0x0A) (CHR '' '')) = []"
    by code_simp
  show ?thesis
    using h1 strip_data_without_closing_bracket [OF h1] strip_data_without_closing_bracket [OF h2]
    by (simp only: s1 s2 simp_thms)
qed


section \<open>The weight mapper\<close>

lemma split_on_char_Nil: "split_on [c] cur [] = [cur]"
  by (simp add: split_on.simps)

lemma split_on_char_Cons:
  "split_on [c] cur (x # xs) =
     (if x = c then cur # split_on [c] [] xs else split_on [c] (cur @ [x]) xs)"
  by (subst split_on.simps) (cases xs; simp)

lemma length_split_on_char: "length (split_on [c] cur s) = Suc (count_list s c)"
  by (induction s arbitrary: cur) (simp_all add: split_on_char_Nil split_on_char_Cons)

lemma weights_loop_map:
  "weights_loop tokens acc = acc @ map weight_for_time_interval tokens"
  by (induction tokens arbitrary: acc) (simp_all split: option.split)

lemma weight_for_time_interval_table:
  "weight_for_time_interval t =
     (if t = ''Never'' then Some 0
      else if t = ''Sometimes'' then Some (1 / 3)
      else if t = ''Often'' then Some (2 / 3)
      else if t = ''Always'' then Some 1
      else None)"
  by (simp add: weight_for_time_interval_def)

text \<open>
  C2. For every string body, \<^verbatim>\<open>find_weights\<close> raises nothing; it returns one entry for
  each token of the split on single spaces, that is one more entry than the body has
  spaces, so that consecutive spaces give empty tokens; and the entry of a token is 0 for
  Never, 1/3 for Sometimes, 2/3 for Often, 1 for Always and \<^verbatim>\<open>None\<close> for any other
  token, in the position of the token.
\<close>

theorem find_weights_total:
  "\<exists>tokens.
       py_split body '' '' = Inr tokens
     \<and> length tokens = Suc (count_list body (CHR '' ''))
     \<and> find_weights (PyStr body) =
         Inr (map (\<lambda>t. if t = ''Never'' then Some 0
                       else if t = ''Sometimes'' then Some (1 / 3)
                       else if t = ''Often'' then Some (2 / 3)
                       else if t = ''Always'' then Some 1
                       else None) tokens)"
proof -
  have s: "py_split body '' '' = Inr (split_on '' '' [] body)"
    by (simp add: py_split_def)
  have l: "length (split_on '' '' [] body) = Suc (count_list body (CHR '' ''))"
    by (rule length_split_on_char)
  have "find_weights (PyStr body) = Inr (map weight_for_time_interval (split_on '' '' [] body))"
    by (simp add: find_weights_def s weights_loop_map)
  also have "weight_for_time_interval =
     (\<lambda>t. if t = ''Never'' then Some 0
           else if t = ''Sometimes'' then Some (1 / 3)
           else if t = ''Often'' then Some (2 / 3)
           else if t = ''Always'' then Some 1
           else None)"
    by (rule ext) (rule weight_for_time_interval_table)
  finally show ?thesis using s l by blast
qed

theorem find_weights_total_witness:
  "find_weights (PyStr ''Always Never The  Often'') = Inr [Some 1, Some 0, None, None, Some (2 / 3)]"
proof -
  have t: "split_on '' '' [] ''Always Never The  Often'' = [''Always'', ''Never'', ''The'', [], ''Often'']"
    by code_simp
  show ?thesis
    using find_weights_total [of "''Always Never The  Often''"]
    by (simp add: py_split_def t)
qed


section \<open>The documented scenario\<close>

lemma scenario_clean:
  "snd (clean_data (PyList [PyStr
      ''\<newline>How do you feel when you're at school? [Supported]\<newline>Often\<newline>Always\<newline>Often\<newline>Often\<newline>Sometimes\<newline>Never'']))
   = Inr (Some [(''Supported'', ''Often Always Often Often Sometimes Never'')])"
  by code_simp

lemma scenario_weights:
  "find_weights (PyStr ''Often Always Often Often Sometimes Never'')
   = Inr [Some (2 / 3), Some 1, Some (2 / 3), Some (2 / 3), Some (1 / 3), Some 0]"
  by code_simp

lemma scenario_mean:
  "np_mean [Some (2 / 3), Some 1, Some (2 / 3), Some (2 / 3), Some (1 / 3), Some 0]
   = Inr (Num (5 / 9))"
  by code_simp

text \<open>
  C1, as stated: the block of the first example of \<^verbatim>\<open>clean_data\<close> is cleaned to the
  pair of Supported and its six answers, the answers are mapped to 2/3, 1, 2/3, 2/3, 1/3
  and 0, and the mean of these weights is 11/18. The first two parts hold; the six
  weights add up to 10/3, so their mean is 5/9, and the statement as a whole is false.
\<close>

theorem scenario_supported_counterexample:
  "\<not> (snd (clean_data (PyList [PyStr
          ''\<newline>How do you feel when you're at school? [Supported]\<newline>Often\<newline>Always\<newline>Often\<newline>Often\<newline>Sometimes\<newline>Never'']))
        = Inr (Some [(''Supported'', ''Often Always Often Often Sometimes Never'')])
      \<and> find_weights (PyStr ''Often Always Often Often Sometimes Never'')
        = Inr [Some (2 / 3), Some 1, Some (2 / 3), Some (2 / 3), Some (1 / 3), Some 0]
      \<and> np_mean [Some (2 / 3), Some 1, Some (2 / 3), Some (2 / 3), Some (1 / 3), Some 0]
        = Inr (Num (11 / 18)))"
  by (simp add: scenario_mean)

text \<open>
  C1, amended: the same block is cleaned to that pair, the body is mapped to those six
  weights, and their mean, which \<^verbatim>\<open>update_weights\<close> stores in the record of the
  feeling, is 5/9.
\<close>

theorem scenario_supported:
  "snd (clean_data (PyList [PyStr
      ''\<newline>How do you feel when you're at school? [Supported]\<newline>Often\<newline>Always\<newline>Often\<newline>Often\<newline>Sometimes\<newline>Never'']))
     = Inr (Some [(''Supported'', ''Often Always Often Often Sometimes Never'')])
   \<and> find_weights (PyStr ''Often Always Often Often Sometimes Never'')
     = Inr [Some (2 / 3), Some 1, Some (2 / 3), Some (2 / 3), Some (1 / 3), Some 0]
   \<and> np_mean [Some (2 / 3), Some 1, Some (2 / 3), Some (2 / 3), Some (1 / 3), Some 0]
     = Inr (Num (5 / 9))
   \<and> average_weight (fst (update_weights
         (Data_init ''Supported'' ''Often Always Often Often Sometimes Never'')
         [Some (2 / 3), Some 1, Some (2 / 3), Some (2 / 3), Some (1 / 3), Some 0]))
     = Num (5 / 9)"
proof (intro conjI)
  show "average_weight (fst (update_weights
         (Data_init ''Supported'' ''Often Always Often Often Sometimes Never'')
         [Some (2 / 3), Some 1, Some (2 / 3), Some (2 / 3), Some (1 / 3), Some 0]))
     = Num (5 / 9)"
    by (simp add: update_weights_def update_average_weight_def scenario_mean)
qed (rule scenario_clean scenario_weights scenario_mean)+


section \<open>The registry and the record of a feeling\<close>

text \<open>
  C7, as stated: registering two strings appends one record with no weights and an
  undefined average. The record that \<^verbatim>\<open>Data.__init__\<close> builds has the number 0 as its
  average, not NaN.
\<close>

theorem populate_dataset_undefined_average_counterexample:
  "\<not> (populate_dataset [] (PyStr ''Bored'') (PyStr ''Never Often'')
        = Inr [\<lparr>feeling = ''Bored'', data = ''Never Often'', weights = [],
                average_weight = NaN\<rparr>])"
  by (simp add: populate_dataset_def Data_init_def)

text \<open>
  C7, amended: a call with two strings appends exactly one record, with the label, the
  body, no weights and the average 0, after the records already there; two calls with
  the same label leave two records, in the order of the calls.
\<close>

theorem populate_dataset_appends:
  "populate_dataset registry (PyStr label) (PyStr body)
     = Inr (registry @ [\<lparr>feeling = label, data = body, weights = [],
                          average_weight = Num 0\<rparr>])
   \<and> (case populate_dataset registry (PyStr label) (PyStr body) of
         Inl e \<Rightarrow> False
       | Inr registry1 \<Rightarrow>
           populate_dataset registry1 (PyStr label) (PyStr body2)
             = Inr (registry @ [\<lparr>feeling = label, data = body, weights = [],
                                  average_weight = Num 0\<rparr>,
                                \<lparr>feeling = label, data = body2, weights = [],
                                  average_weight = Num 0\<rparr>]))"
  by (simp add: populate_dataset_def Data_init_def)

text \<open>
  C4. After every call of \<^verbatim>\<open>update_weights\<close> the average of the record is to agree
  with the weights it then holds, as the docstring of the method also says. The code
  breaks this on the body \<^verbatim>\<open>Always The\<close>: \<^verbatim>\<open>find_weights\<close> maps it to 1 and
  \<^verbatim>\<open>None\<close>, and the call with that list, which is the call \<^verbatim>\<open>main\<close> makes, stores
  the list, raises \<^verbatim>\<open>TypeError\<close> from the mean, and leaves the record with the new
  weights beside the average 0 it had before.
\<close>

theorem update_weights_absent_stale:
  "find_weights (PyStr ''Always The'') = Inr [Some 1, None]
   \<and> update_weights (Data_init ''Hurt'' ''Always The'') [Some 1, None]
       = (\<lparr>feeling = ''Hurt'', data = ''Always The'', weights = [Some 1, None],
            average_weight = Num 0\<rparr>, Some TypeError)"
proof
  show "find_weights (PyStr ''Always The'') = Inr [Some 1, None]"
    by code_simp
  show "update_weights (Data_init ''Hurt'' ''Always The'') [Some 1, None]
       = (\<lparr>feeling = ''Hurt'', data = ''Always The'', weights = [Some 1, None],
            average_weight = Num 0\<rparr>, Some TypeError)"
    by (simp add: update_weights_def update_average_weight_def np_mean_def Data_init_def)
qed

section \<open>The ranking\<close>

lemma num_lt_asym: "num_lt a b \<Longrightarrow> \<not> num_lt b a"
  by (auto simp: num_lt_def split: number.splits)

lemma num_lt_neq: "num_lt a b \<Longrightarrow> a \<noteq> b"
  by (auto simp: num_lt_def split: number.splits)

lemma num_le_trans: "\<not> num_lt b a \<Longrightarrow> \<not> num_lt c b \<Longrightarrow> b \<noteq> NaN \<Longrightarrow> \<not> num_lt c a"
  by (auto simp: num_lt_def split: number.splits)

lemma num_lt_total: "a \<noteq> NaN \<Longrightarrow> b \<noteq> NaN \<Longrightarrow> a \<noteq> b \<Longrightarrow> \<not> num_lt a b \<Longrightarrow> num_lt b a"
  by (auto simp: num_lt_def split: number.splits)

lemma set_insort_lt: "set (insort_lt key x ys) = insert x (set ys)"
  by (induction ys) auto

lemma mset_insort_lt: "mset (insort_lt key x ys) = add_mset x (mset ys)"
  by (induction ys) auto

lemma mset_foldr_insort_lt: "mset (foldr (insort_lt key) xs []) = mset xs"
  by (induction xs) (simp_all add: mset_insort_lt)

lemma filter_insort_lt:
  "filter (\<lambda>y. key y = w) (insort_lt key x ys) = filter (\<lambda>y. key y = w) (x # ys)"
  by (induction ys) (auto dest: num_lt_neq)

lemma filter_foldr_insort_lt:
  "filter (\<lambda>y. key y = w) (foldr (insort_lt key) xs []) = filter (\<lambda>y. key y = w) xs"
proof (induction xs)
  case (Cons x xs)
  have "filter (\<lambda>y. key y = w) (foldr (insort_lt key) (x # xs) [])
      = filter (\<lambda>y. key y = w) (x # foldr (insort_lt key) xs [])"
    by (simp only: foldr.simps comp_apply filter_insort_lt)
  with Cons.IH show ?case by simp
qed simp

lemma sorted_insort_lt:
  assumes "sorted_wrt (\<lambda>a b. \<not> num_lt (key b) (key a)) ys"
    and "key x \<noteq> NaN" and "\<forall>y \<in> set ys. key y \<noteq> NaN"
  shows "sorted_wrt (\<lambda>a b. \<not> num_lt (key b) (key a)) (insort_lt key x ys)"
  using assms
proof (induction ys)
  case Nil
  show ?case by simp
next
  case (Cons y ys)
  show ?case
  proof (cases "num_lt (key y) (key x)")
    case True
    from Cons.prems have s: "sorted_wrt (\<lambda>a b. \<not> num_lt (key b) (key a)) ys"
      and h: "\<forall>z \<in> set ys. \<not> num_lt (key z) (key y)" by simp_all
    from Cons.IH [OF s] Cons.prems
    have "sorted_wrt (\<lambda>a b. \<not> num_lt (key b) (key a)) (insort_lt key x ys)" by simp
    moreover from True have "\<not> num_lt (key x) (key y)" by (rule num_lt_asym)
    ultimately show ?thesis using True h by (simp add: set_insort_lt)
  next
    case False
    from Cons.prems have h: "\<forall>z \<in> set ys. \<not> num_lt (key z) (key y)" by simp
    have "\<forall>z \<in> set ys. \<not> num_lt (key z) (key x)"
    proof
      fix z assume "z \<in> set ys"
      with h have "\<not> num_lt (key z) (key y)" by blast
      moreover from Cons.prems have "key y \<noteq> NaN" by simp
      ultimately show "\<not> num_lt (key z) (key x)"
        using False num_le_trans [of "key y" "key x" "key z"] by blast
    qed
    with False Cons.prems show ?thesis by simp
  qed
qed

lemma sorted_foldr_insort_lt:
  "\<forall>x \<in> set xs. key x \<noteq> NaN \<Longrightarrow>
     sorted_wrt (\<lambda>a b. \<not> num_lt (key b) (key a)) (foldr (insort_lt key) xs [])"
proof (induction xs)
  case (Cons x xs)
  then have "sorted_wrt (\<lambda>a b. \<not> num_lt (key b) (key a)) (foldr (insort_lt key) xs [])"
    by simp
  moreover have "\<forall>y \<in> set (foldr (insort_lt key) xs []). key y \<noteq> NaN"
    using Cons.prems mset_foldr_insort_lt [of key xs] by (metis list.set_intros(2) set_mset_mset)
  ultimately show ?case using Cons.prems by (simp add: sorted_insort_lt)
qed simp

lemma strict_of_distinct:
  "sorted_wrt (\<lambda>a b. \<not> num_lt (key a) (key b)) xs \<Longrightarrow> distinct (map key xs) \<Longrightarrow>
   \<forall>x \<in> set xs. key x \<noteq> NaN \<Longrightarrow> sorted_wrt (\<lambda>a b. num_lt (key b) (key a)) xs"
proof (induction xs)
  case (Cons x xs)
  then have "sorted_wrt (\<lambda>a b. num_lt (key b) (key a)) xs" by simp
  moreover have "\<forall>y \<in> set xs. num_lt (key y) (key x)"
  proof
    fix y assume y: "y \<in> set xs"
    with Cons.prems have "\<not> num_lt (key x) (key y)" "key x \<noteq> key y" "key x \<noteq> NaN" "key y \<noteq> NaN"
      by auto
    then show "num_lt (key y) (key x)" by (blast intro: num_lt_total)
  qed
  ultimately show ?case by simp
qed simp

lemma py_sort_reverse_mset: "mset (py_sort key True xs) = mset xs"
  by (simp add: py_sort_def mset_foldr_insort_lt)

lemma py_sort_reverse_filter:
  "filter (\<lambda>y. key y = w) (py_sort key True xs) = filter (\<lambda>y. key y = w) xs"
  by (simp add: py_sort_def rev_filter [symmetric] filter_foldr_insort_lt)

lemma py_sort_reverse_sorted:
  "\<forall>x \<in> set xs. key x \<noteq> NaN \<Longrightarrow>
     sorted_wrt (\<lambda>a b. \<not> num_lt (key a) (key b)) (py_sort key True xs)"
  using sorted_foldr_insort_lt [of "rev xs" key]
  by (simp add: py_sort_def sorted_wrt_rev)

text \<open>
  C3. For records whose averages are all numbers, \<^verbatim>\<open>order_weights\<close> prints the pairs
  of feeling and average of exactly these records, no average after a smaller one; when
  the averages are pairwise distinct, each average is greater than all that follow; and
  the pairs of one average keep the order the records have in the registry.
\<close>

theorem order_weights_ranking:
  "list_all (\<lambda>r. average_weight r \<noteq> NaN) records \<Longrightarrow>
     mset (order_weights records) = mset (map (\<lambda>r. (feeling r, average_weight r)) records)
   \<and> sorted_wrt (\<lambda>p q. \<not> num_lt (snd p) (snd q)) (order_weights records)
   \<and> (distinct (map average_weight records) \<longrightarrow>
        sorted_wrt (\<lambda>p q. num_lt (snd q) (snd p)) (order_weights records))
   \<and> (\<forall>w. filter (\<lambda>p. snd p = w) (order_weights records)
          = filter (\<lambda>p. snd p = w) (map (\<lambda>r. (feeling r, average_weight r)) records))"
proof -
  let ?pairs = "map (\<lambda>r. (feeling r, average_weight r)) records"
  assume "list_all (\<lambda>r. average_weight r \<noteq> NaN) records"
  then have n: "\<forall>p \<in> set ?pairs. snd p \<noteq> NaN" by (auto simp: list_all_iff)
  have o: "order_weights records = py_sort snd True ?pairs" by (simp add: order_weights_def)
  have m: "mset (order_weights records) = mset ?pairs"
    by (simp only: o py_sort_reverse_mset)
  have s: "sorted_wrt (\<lambda>p q. \<not> num_lt (snd p) (snd q)) (order_weights records)"
    unfolding o using n by (rule py_sort_reverse_sorted)
  have d: "sorted_wrt (\<lambda>p q. num_lt (snd q) (snd p)) (order_weights records)"
    if "distinct (map average_weight records)"
  proof -
    have "map snd ?pairs = map average_weight records" by simp
    with that have "distinct (map snd ?pairs)" by (simp only:)
    moreover from m have "mset (map snd (order_weights records)) = mset (map snd ?pairs)"
      by (metis mset_map)
    ultimately have 1: "distinct (map snd (order_weights records))"
      by (metis mset_eq_imp_distinct_iff)
    from m n have 2: "\<forall>p \<in> set (order_weights records). snd p \<noteq> NaN"
      by (metis set_mset_mset)
    from s 1 2 show ?thesis by (rule strict_of_distinct)
  qed
  have f: "\<forall>w. filter (\<lambda>p. snd p = w) (order_weights records) = filter (\<lambda>p. snd p = w) ?pairs"
    by (simp only: o py_sort_reverse_filter simp_thms)
  from m s d f show ?thesis by blast
qed

theorem order_weights_ranking_witness:
  "list_all (\<lambda>r. average_weight r \<noteq> NaN)
     [\<lparr>feeling = ''Bored'', data = [], weights = [], average_weight = Num (1 / 3)\<rparr>,
      \<lparr>feeling = ''Tired'', data = [], weights = [], average_weight = Num 1\<rparr>,
      \<lparr>feeling = ''Happy'', data = [], weights = [], average_weight = Num 0\<rparr>]
   \<and> distinct (map average_weight
     [\<lparr>feeling = ''Bored'', data = [], weights = [], average_weight = Num (1 / 3)\<rparr>,
      \<lparr>feeling = ''Tired'', data = [], weights = [], average_weight = Num 1\<rparr>,
      \<lparr>feeling = ''Happy'', data = [], weights = [], average_weight = Num 0\<rparr>])
   \<and> sorted_wrt (\<lambda>p q. num_lt (snd q) (snd p)) (order_weights
     [\<lparr>feeling = ''Bored'', data = [], weights = [], average_weight = Num (1 / 3)\<rparr>,
      \<lparr>feeling = ''Tired'', data = [], weights = [], average_weight = Num 1\<rparr>,
      \<lparr>feeling = ''Happy'', data = [], weights = [], average_weight = Num 0\<rparr>])"
proof -
  let ?rs = "[\<lparr>feeling = ''Bored'', data = [], weights = [], average_weight = Num (1 / 3)\<rparr>,
      \<lparr>feeling = ''Tired'', data = [], weights = [], average_weight = Num 1\<rparr>,
      \<lparr>feeling = ''Happy'', data = [], weights = [], average_weight = Num 0\<rparr>]"
  have h: "list_all (\<lambda>r. average_weight r \<noteq> NaN) ?rs" by simp
  have d: "distinct (map average_weight ?rs)" by simp
  from order_weights_ranking [OF h] d
  have "sorted_wrt (\<lambda>p q. num_lt (snd q) (snd p)) (order_weights ?rs)" by blast
  with h d show ?thesis by blast
qed

lemma order_weights_ties_example:
  "order_weights
     [\<lparr>feeling = ''a'', data = [], weights = [], average_weight = Num 1\<rparr>,
      \<lparr>feeling = ''b'', data = [], weights = [], average_weight = Num 2\<rparr>,
      \<lparr>feeling = ''c'', data = [], weights = [], average_weight = Num 1\<rparr>,
      \<lparr>feeling = ''d'', data = [], weights = [], average_weight = Num 2\<rparr>]
   = [(''b'', Num 2), (''d'', Num 2), (''a'', Num 1), (''c'', Num 1)]"
  by code_simp


section \<open>The block cleaner\<close>

lemma strip_data_str: "\<exists>body. strip_data (PyStr block) = Inr body"
  by (simp add: strip_data_def Let_def)

lemma extract_feeling_default_error:
  "extract_feeling (PyStr block) 0 = Inl e \<Longrightarrow> is_IndexError e"
  by (auto simp: extract_feeling_def Let_def split: if_splits)

lemma extract_feeling_default_fails:
  "(\<exists>e. extract_feeling (PyStr block) 0 = Inl e) \<longleftrightarrow> findall_bracketed block = []"
  by (auto simp: extract_feeling_def Let_def)

lemma surviving_pair_None: "surviving_pair block = None \<longleftrightarrow> findall_bracketed block = []"
proof -
  obtain body where b: "strip_data (PyStr block) = Inr body"
    using strip_data_str by blast
  show ?thesis
  proof (cases "extract_feeling (PyStr block) 0")
    case (Inl e)
    then show ?thesis
      using extract_feeling_default_fails [of block] by (simp add: surviving_pair_def)
  next
    case (Inr label)
    then show ?thesis
      using extract_feeling_default_fails [of block] by (simp add: surviving_pair_def b)
  qed
qed

lemma map_filter_append:
  "List.map_filter f (xs @ ys) = List.map_filter f xs @ List.map_filter f ys"
  by (simp add: List.map_filter_def)

lemma clean_loop_str:
  "clean_loop (map PyStr blocks) acc
     = (concat (map block_trace blocks), Inr (acc @ List.map_filter surviving_pair blocks))"
proof (induction blocks arbitrary: acc)
  case Nil
  show ?case by simp
next
  case (Cons b blocks)
  obtain body where s: "strip_data (PyStr b) = Inr body"
    using strip_data_str by blast
  show ?case
  proof (cases "extract_feeling (PyStr b) 0")
    case (Inl e)
    then have "is_IndexError e" by (rule extract_feeling_default_error)
    with Inl show ?thesis
      by (simp add: Cons.IH emit_def surviving_pair_def block_trace_def)
  next
    case (Inr label)
    then show ?thesis
      by (simp add: s Cons.IH emit_def surviving_pair_def block_trace_def)
  qed
qed

lemma clean_data_str:
  "clean_data (PyList (map PyStr blocks))
     = (concat (map block_trace blocks),
        Inr (if List.map_filter surviving_pair blocks \<noteq> []
             then Some (List.map_filter surviving_pair blocks) else None))"
proof -
  have "list_all is_str (map PyStr blocks)" by (simp add: list_all_iff)
  then show ?thesis by (simp add: clean_data_def clean_loop_str)
qed

lemma map_filter_Nil:
  "List.map_filter f xs = [] \<longleftrightarrow> list_all (\<lambda>x. f x = None) xs"
  by (induction xs) (simp_all split: option.split)

lemma strip_call_in_trace:
  assumes "Call_strip_data (PyStr x) \<in> set (block_trace b)"
  shows "x = b \<and> surviving_pair b \<noteq> None"
proof (cases "extract_feeling (PyStr b) 0")
  case (Inl e)
  with assms show ?thesis by (simp add: block_trace_def)
next
  case (Inr label)
  obtain body where "strip_data (PyStr b) = Inr body"
    using strip_data_str by blast
  with Inr assms show ?thesis by (simp add: block_trace_def surviving_pair_def)
qed

text \<open>
  C6. When \<^verbatim>\<open>extract_feeling\<close> raises on a block of a list of strings,
  \<^verbatim>\<open>clean_data\<close> returns what it returns for the list without that block; the returned
  pairs are those of the blocks that survive, in the order of the blocks; the trace has,
  between the traces of the blocks before and after, the call of \<^verbatim>\<open>extract_feeling\<close> on
  the block and the line printed for its error; and \<^verbatim>\<open>strip_data\<close> is never called on
  the block.
\<close>

theorem clean_data_skips_failed_block:
  "extract_feeling (PyStr bad) 0 = Inl e \<Longrightarrow>
     snd (clean_data (PyList (map PyStr (before @ bad # after))))
       = snd (clean_data (PyList (map PyStr (before @ after))))
   \<and> snd (clean_data (PyList (map PyStr (before @ bad # after))))
       = Inr (if List.map_filter surviving_pair (before @ bad # after) \<noteq> []
              then Some (List.map_filter surviving_pair (before @ bad # after)) else None)
   \<and> surviving_pair bad = None
   \<and> fst (clean_data (PyList (map PyStr (before @ bad # after))))
       = fst (clean_data (PyList (map PyStr before)))
         @ [Call_extract_feeling (PyStr bad), Print_extract_failed e]
         @ fst (clean_data (PyList (map PyStr after)))
   \<and> Call_strip_data (PyStr bad)
       \<notin> set (fst (clean_data (PyList (map PyStr (before @ bad # after)))))"
proof -
  assume a: "extract_feeling (PyStr bad) 0 = Inl e"
  then have n: "surviving_pair bad = None" by (simp add: surviving_pair_def)
  from a have t: "block_trace bad = [Call_extract_feeling (PyStr bad), Print_extract_failed e]"
    by (simp add: block_trace_def)
  have m: "List.map_filter surviving_pair (before @ bad # after)
         = List.map_filter surviving_pair (before @ after)"
    by (simp add: map_filter_append n)
  have 1: "snd (clean_data (PyList (map PyStr (before @ bad # after))))
       = snd (clean_data (PyList (map PyStr (before @ after))))"
    by (simp only: clean_data_str snd_conv m)
  have 2: "snd (clean_data (PyList (map PyStr (before @ bad # after))))
       = Inr (if List.map_filter surviving_pair (before @ bad # after) \<noteq> []
              then Some (List.map_filter surviving_pair (before @ bad # after)) else None)"
    by (simp only: clean_data_str snd_conv)
  have 3: "fst (clean_data (PyList (map PyStr (before @ bad # after))))
       = fst (clean_data (PyList (map PyStr before)))
         @ [Call_extract_feeling (PyStr bad), Print_extract_failed e]
         @ fst (clean_data (PyList (map PyStr after)))"
    by (simp only: clean_data_str fst_conv) (simp add: t)
  have 4: "Call_strip_data (PyStr bad)
       \<notin> set (fst (clean_data (PyList (map PyStr (before @ bad # after)))))"
  proof
    assume "Call_strip_data (PyStr bad)
       \<in> set (fst (clean_data (PyList (map PyStr (before @ bad # after)))))"
    then have "Call_strip_data (PyStr bad) \<in> set (concat (map block_trace (before @ bad # after)))"
      by (simp only: clean_data_str fst_conv)
    then obtain b where "Call_strip_data (PyStr bad) \<in> set (block_trace b)"
      by auto
    then have "surviving_pair bad \<noteq> None" by (auto dest: strip_call_in_trace)
    with n show False by simp
  qed
  from 1 2 n 3 4 show ?thesis by blast
qed

theorem clean_data_skips_failed_block_witness:
  "extract_feeling (PyStr ''Timestamp'') 0 = Inl (IndexError (Subgroup_too_large 0 0))
   \<and> snd (clean_data (PyList (map PyStr
          ([''x [Bored] Never''] @ ''Timestamp'' # [''y [Tired]\<newline>Often'']))))
     = Inr (Some [(''Bored'', ''Never''), (''Tired'', ''Often'')])
   \<and> Call_strip_data (PyStr ''Timestamp'')
       \<notin> set (fst (clean_data (PyList (map PyStr
          ([''x [Bored] Never''] @ ''Timestamp'' # [''y [Tired]\<newline>Often''])))))"
proof -
  have h: "extract_feeling (PyStr ''Timestamp'') 0 = Inl (IndexError (Subgroup_too_large 0 0))"
    by code_simp
  have v: "snd (clean_data (PyList (map PyStr
          ([''x [Bored] Never''] @ [''y [Tired]\<newline>Often'']))))
     = Inr (Some [(''Bored'', ''Never''), (''Tired'', ''Often'')])"
    by code_simp
  note t = clean_data_skips_failed_block
    [OF h, of "[''x [Bored] Never'']" "[''y [Tired]\<newline>Often'']"]
  from t have "snd (clean_data (PyList (map PyStr
          ([''x [Bored] Never''] @ ''Timestamp'' # [''y [Tired]\<newline>Often'']))))
     = snd (clean_data (PyList (map PyStr
          ([''x [Bored] Never''] @ [''y [Tired]\<newline>Often'']))))"
    by (rule conjunct1)
  then have b: "snd (clean_data (PyList (map PyStr
          ([''x [Bored] Never''] @ ''Timestamp'' # [''y [Tired]\<newline>Often'']))))
     = Inr (Some [(''Bored'', ''Never''), (''Tired'', ''Often'')])"
    using v by (rule trans)
  from t have c: "Call_strip_data (PyStr ''Timestamp'')
       \<notin> set (fst (clean_data (PyList (map PyStr
          ([''x [Bored] Never''] @ ''Timestamp'' # [''y [Tired]\<newline>Often''])))))"
    by blast
  from h b c show ?thesis by (intro conjI)
qed

text \<open>
  C8. For a list of strings, \<^verbatim>\<open>clean_data\<close> returns \<^verbatim>\<open>None\<close> when no block has a
  bracketed word, and otherwise a list of pairs that is not empty: the result without
  pairs is not a list, and differs from every list of pairs, also from one whose bodies
  are all empty strings.
\<close>

theorem clean_data_no_survivor:
  "(if list_all (\<lambda>b. findall_bracketed b = []) blocks
    then snd (clean_data (PyList (map PyStr blocks))) = Inr None
    else (\<exists>pairs. pairs \<noteq> [] \<and> snd (clean_data (PyList (map PyStr blocks))) = Inr (Some pairs)))
   \<and> snd (clean_data (PyList (map PyStr blocks))) \<noteq> Inr (Some [])"
proof -
  have "List.map_filter surviving_pair blocks = [] \<longleftrightarrow> list_all (\<lambda>b. findall_bracketed b = []) blocks"
    by (simp add: map_filter_Nil surviving_pair_None)
  then show ?thesis by (simp add: clean_data_str)
qed

theorem clean_data_no_survivor_witness:
  "snd (clean_data (PyList (map PyStr [''Timestamp'', ''3/12/2017 [] x'']))) = Inr None
   \<and> snd (clean_data (PyList (map PyStr [''[Calm]'']))) = Inr (Some [(''Calm'', [])])"
proof -
  have 1: "list_all (\<lambda>b. findall_bracketed b = []) [''Timestamp'', ''3/12/2017 [] x'']"
    by code_simp
  have 2: "snd (clean_data (PyList (map PyStr [''[Calm]'']))) = Inr (Some [(''Calm'', [])])"
    by code_simp
  show ?thesis
    using clean_data_no_survivor [of "[''Timestamp'', ''3/12/2017 [] x'']"] 1 2
    by (simp only: if_True simp_thms)
qed


section \<open>The segmenter\<close>

lemma adjust_index_le: "adjust_index n i \<le> n"
  unfolding adjust_index_def by (simp add: nat_le_iff)

lemma adjust_index_nonneg: "0 \<le> i \<Longrightarrow> adjust_index n i = min (nat i) n"
  by (simp add: adjust_index_def)

lemma adjust_index_length: "adjust_index n (int n) = n"
  by (simp add: adjust_index_def)

lemma take_drop_nth:
  "a \<le> b \<Longrightarrow> b \<le> length xs \<Longrightarrow> take (b - a) (drop a xs) = map (nth xs) [a..<b]"
  by (rule nth_equalityI) simp_all

lemma py_slice_nth:
  "py_slice xs lo hi
     = map (nth xs) [adjust_index (length xs) lo ..< adjust_index (length xs) hi]"
proof (cases "adjust_index (length xs) lo < adjust_index (length xs) hi")
  case True
  then show ?thesis
    using take_drop_nth [of "adjust_index (length xs) lo" "adjust_index (length xs) hi" xs]
    by (simp add: py_slice_def Let_def adjust_index_le)
next
  case False
  then show ?thesis by (simp add: py_slice_def Let_def)
qed

text \<open>
  C9. For a file that exists, \<^verbatim>\<open>get_data_from_file\<close> raises only when the delimiter is
  empty, which the split rejects before any slicing; otherwise, for any two integer
  indices, it returns the blocks of the split whose positions lie from the lower index up
  to, and without, the upper index, or up to the end when no upper index is given. An
  index that is not negative is taken as it is and cut at the number of blocks, a negative
  one counts from the end and is cut at 0, so the result is never longer than the list of
  blocks and is empty when the range is.
\<close>

theorem get_data_from_file_slice:
  "fs file = Some text \<Longrightarrow> blocks = split_on delimiter [] text \<Longrightarrow>
     get_data_from_file fs file delimiter lower upper_index
       = (if delimiter = [] then Inl ValueError
          else Inr (map (nth blocks)
                 [adjust_index (length blocks) lower ..<
                  (case upper_index of
                     Some upper \<Rightarrow> adjust_index (length blocks) upper
                   | None \<Rightarrow> length blocks)]))
   \<and> adjust_index (length blocks) i \<le> length blocks
   \<and> (if 0 \<le> i then adjust_index (length blocks) i = min (nat i) (length blocks)
       else adjust_index (length blocks) i = nat (int (length blocks) + i))
   \<and> length (py_slice blocks lower j) \<le> length blocks"
proof -
  assume f: "fs file = Some text" and b: "blocks = split_on delimiter [] text"
  have 1: "get_data_from_file fs file delimiter lower upper_index
       = (if delimiter = [] then Inl ValueError
          else Inr (map (nth blocks)
                 [adjust_index (length blocks) lower ..<
                  (case upper_index of
                     Some upper \<Rightarrow> adjust_index (length blocks) upper
                   | None \<Rightarrow> length blocks)]))"
  proof (cases "delimiter = []")
    case True
    then show ?thesis by (simp add: get_data_from_file_def f py_split_def)
  next
    case False
    with b have s: "py_split text delimiter = Inr blocks" by (simp add: py_split_def)
    from False show ?thesis
      by (cases upper_index)
         (simp_all add: get_data_from_file_def f s py_slice_nth adjust_index_length)
  qed
  have 2: "if 0 \<le> i then adjust_index (length blocks) i = min (nat i) (length blocks)
       else adjust_index (length blocks) i = nat (int (length blocks) + i)"
    unfolding adjust_index_def by (simp add: add.commute)
  have 3: "length (py_slice blocks lower j) \<le> length blocks"
    using adjust_index_le [of "length blocks" j] by (simp add: py_slice_nth)
  from 1 adjust_index_le [of "length blocks" i] 2 3 show ?thesis by (intro conjI)
qed

theorem get_data_from_file_slice_witness:
  "get_data_from_file [''survey.dat'' \<mapsto> ''a---b---c------d''] ''survey.dat'' ''---'' 1 (Some 3)
     = Inr [''b'', ''c'']"
proof -
  have f: "[''survey.dat'' \<mapsto> ''a---b---c------d''] ''survey.dat'' = Some ''a---b---c------d''"
    by simp
  have b: "[''a'', ''b'', ''c'', [], ''d''] = split_on ''---'' [] ''a---b---c------d''"
    by code_simp
  have u: "[Suc 0..<3] = [Suc 0, 2]" by code_simp
  show ?thesis
    using get_data_from_file_slice
      [of "[''survey.dat'' \<mapsto> ''a---b---c------d'']" "''survey.dat''" "''a---b---c------d''"
          "[''a'', ''b'', ''c'', [], ''d'']" "''---''" 1 "Some 3" 0 0, OF f b]
    by (simp add: adjust_index_def u)
qed

lemma get_data_from_file_out_of_range_examples:
  "get_data_from_file [''f'' \<mapsto> ''a-b-c''] ''f'' ''-'' 5 (Some 15) = Inr []"
  "get_data_from_file [''f'' \<mapsto> ''a-b-c''] ''f'' ''-'' (- 1) None = Inr [''c'']"
  "get_data_from_file [''f'' \<mapsto> ''a-b-c''] ''f'' ''-'' (- 9) (Some 2) = Inr [''a'', ''b'']"
  "get_data_from_file [''f'' \<mapsto> ''a-b-c''] ''f'' ''-'' 2 (Some 1) = Inr []"
  "get_data_from_file [''f'' \<mapsto> ''a-b-c''] ''f'' [] 0 None = Inl ValueError"
  "get_data_from_file [''f'' \<mapsto> ''a-b-c''] ''g'' ''-'' 0 None = Inl (FileNotFoundError ''g'')"
  by code_simp+

end
